theory Spec2Isabelle
  imports Complex_Main "HOL-Library.Word"
begin

section \<open>Bytes and the hexadecimal renderings used by the tool\<close>

type_synonym byte = "8 word"

text \<open>
  The digits of Python's \<^verbatim>\<open>x\<close> format specifier (lower case).
\<close>

definition hex_digit :: "nat \<Rightarrow> char" where
  "hex_digit d = ''0123456789abcdef'' ! (d mod 16)"

fun hex_nat :: "nat \<Rightarrow> string" where
  "hex_nat n = (if n < 16 then [hex_digit n] else hex_nat (n div 16) @ [hex_digit (n mod 16)])"

text \<open>\<^verbatim>\<open>f"{b:02x}"\<close> for one byte \<open>b\<close>.\<close>

definition format_02x :: "byte \<Rightarrow> string" where
  "format_02x b = [hex_digit (unat b div 16), hex_digit (unat b mod 16)]"

text \<open>
  \<^verbatim>\<open>f"{a:08x}"\<close> for a Python integer: zero padding to width 8, the sign (if any)
  counted in the width and written first.
\<close>

definition format_08x :: "int \<Rightarrow> string" where
  "format_08x a =
     (if a < 0
      then (let ds = hex_nat (nat (- a)) in CHR ''-'' # replicate (7 - length ds) CHR ''0'' @ ds)
      else (let ds = hex_nat (nat a) in replicate (8 - length ds) CHR ''0'' @ ds))"

section \<open>USBErrorRecovery\<close>

text \<open>
  The dictionary stored in \<^verbatim>\<open>self.last_error\<close>, an entry of
  \<^verbatim>\<open>self.skip_regions\<close>, and the dictionary returned by
  \<^verbatim>\<open>handle_error\<close>. The three returned dictionaries do not have the same keys:
  \<^verbatim>\<open>skip_size\<close> is absent from the retry action and \<^verbatim>\<open>delay_ms\<close> from the
  two skip actions, hence the options.
\<close>

record error_record =
  err_address :: int
  err_code :: int
  err_count :: int
  err_timestamp :: string

record skip_region =
  region_start :: int
  region_end :: int
  region_reason :: string

record recovery_action =
  action :: string
  next_address :: int
  skip_size :: "int option"
  delay_ms :: "int option"
  reason :: string

record USBErrorRecovery =
  error_threshold :: int
  error_count :: int
  last_error :: "error_record option"
  last_good_address :: "int option"
  skip_regions :: "skip_region list"

text \<open>\<^verbatim>\<open>USBErrorRecovery.__init__\<close>.\<close>

definition USBErrorRecovery_init :: USBErrorRecovery where
  "USBErrorRecovery_init =
     \<lparr>error_threshold = 5, error_count = 0, last_error = None,
      last_good_address = None, skip_regions = []\<rparr>"

text \<open>
  The tail of \<^verbatim>\<open>handle_error\<close> below the comment
  \<^verbatim>\<open># Default: skip this address and continue\<close>. The second argument is the number
  of seconds the call has slept before reaching it.
\<close>

definition default_skip ::
  "int \<Rightarrow> nat \<Rightarrow> USBErrorRecovery \<Rightarrow> recovery_action \<times> nat \<times> USBErrorRecovery" where
  "default_skip address slept self =
     (let self' = (if error_count self \<ge> 3 then self\<lparr>error_count := 0\<rparr> else self)
      in (\<lparr>action = ''skip_address'', next_address = address + 4, skip_size = Some 4,
           delay_ms = None, reason = ''graceful_skip''\<rparr>, slept, self'))"

text \<open>
  \<^verbatim>\<open>USBErrorRecovery.handle_error(address, error_code, response_data)\<close>. The clock
  reading \<^verbatim>\<open>datetime.now().isoformat()\<close> is the argument \<open>now\<close>;
  \<^verbatim>\<open>response_data\<close> is not read by the body and is left out. The result is the
  returned dictionary, the seconds spent in \<^verbatim>\<open>time.sleep\<close>, and the updated
  object. Log lines are not modelled.
\<close>

definition handle_error ::
  "string \<Rightarrow> int \<Rightarrow> int \<Rightarrow> USBErrorRecovery \<Rightarrow> recovery_action \<times> nat \<times> USBErrorRecovery" where
  "handle_error now address error_code self0 =
     (let self1 = self0\<lparr>error_count := error_count self0 + 1\<rparr>;
          self = self1\<lparr>last_error := Some \<lparr>err_address = address, err_code = error_code,
                                             err_count = error_count self1, err_timestamp = now\<rparr>\<rparr>
      in if error_code = 0x04 then
           (if error_count self \<ge> error_threshold self then
              (let next_addr = ((address + 0x1000) div 0x1000) * 0x1000
               in (\<lparr>action = ''skip_to_next_block'', next_address = next_addr,
                    skip_size = Some 0x1000, delay_ms = None, reason = ''error_code_0x04''\<rparr>,
                   0,
                   self\<lparr>skip_regions := skip_regions self @
                       [\<lparr>region_start = address, region_end = next_addr,
                         region_reason = ''0x04_errors''\<rparr>]\<rparr>))
            else default_skip address 0 self)
         else if error_code = 0xff then
           (if error_count self < 3 then
              (\<lparr>action = ''retry'', next_address = address, skip_size = None,
                delay_ms = Some 2000, reason = ''timeout_recovery''\<rparr>, 2, self)
            else default_skip address 2 self)
         else default_skip address 0 self)"

text \<open>\<^verbatim>\<open>USBErrorRecovery.reset_error_count\<close>.\<close>

definition reset_error_count :: "USBErrorRecovery \<Rightarrow> USBErrorRecovery" where
  "reset_error_count self = self\<lparr>error_count := 0\<rparr>"

text \<open>
  A caller's use of one recovery object: any finite sequence of the two public
  methods. \<open>run_calls\<close> returns the dictionaries returned by the
  \<^verbatim>\<open>handle_error\<close> calls, in call order, and the object afterwards.
\<close>

datatype recovery_call = HandleError string int int | ResetErrorCount

fun run_calls ::
  "recovery_call list \<Rightarrow> USBErrorRecovery \<Rightarrow> recovery_action list \<times> USBErrorRecovery" where
  "run_calls [] self = ([], self)"
| "run_calls (HandleError now address code # cs) self =
     (case handle_error now address code self of
        (a, slept, self') \<Rightarrow> (case run_calls cs self' of (as, self'') \<Rightarrow> (a # as, self'')))"
| "run_calls (ResetErrorCount # cs) self = run_calls cs (reset_error_count self)"

text \<open>
  The invariant that \<^verbatim>\<open>__init__\<close> establishes and both methods keep.
\<close>

definition recovery_inv :: "USBErrorRecovery \<Rightarrow> bool" where
  "recovery_inv s =
     (0 \<le> error_count s \<and> error_count s \<le> 2 \<and> error_threshold s = 5 \<and> skip_regions s = [])"

section \<open>Python values shared by the classes below\<close>

text \<open>
  The exceptions the modelled code can meet. \<open>KeyboardInterrupt\<close> derives from
  \<^verbatim>\<open>BaseException\<close> only; every other constructor is a subclass of
  \<^verbatim>\<open>Exception\<close>, and \<open>OtherException msg\<close> stands for any such subclass not
  named here, with \<^verbatim>\<open>str(e) = msg\<close>.
\<close>

datatype py_exception =
  KeyboardInterrupt
  | ZeroDivisionError
  | OverflowError
  | USBTimeoutError string
  | OtherException string

fun exception_str :: "py_exception \<Rightarrow> string" where
  "exception_str KeyboardInterrupt = []"
| "exception_str ZeroDivisionError = ''division by zero''"
| "exception_str OverflowError = ''int too large to convert to float''"
| "exception_str (USBTimeoutError msg) = msg"
| "exception_str (OtherException msg) = msg"

text \<open>Python's \<^verbatim>\<open>a / b\<close> on integers: it raises when the divisor is zero.\<close>

definition py_truediv :: "int \<Rightarrow> int \<Rightarrow> py_exception + real" where
  "py_truediv a b = (if b = 0 then Inl ZeroDivisionError else Inr (real_of_int a / real_of_int b))"

text \<open>
  Python's \<^verbatim>\<open>n * 0.01\<close> on an integer \<open>n\<close> first converts \<open>n\<close> to a double,
  rounding to nearest with ties to even, and raises \<^verbatim>\<open>OverflowError\<close> when the
  rounded magnitude is \<open>2 ^ 1024\<close> or more. The largest double is
  \<open>2 ^ 1024 - 2 ^ 971\<close>, so this happens from \<open>2 ^ 1024 - 2 ^ 970\<close> on.
\<close>

definition int_to_float_overflows :: "int \<Rightarrow> bool" where
  "int_to_float_overflows n = (2 ^ 1024 - 2 ^ 970 \<le> \<bar>n\<bar>)"

text \<open>
  Assignment \<^verbatim>\<open>d[k] = v\<close> on a Python dictionary, which keeps insertion order: an
  existing key keeps its place and takes the new value, a new key goes last. A dictionary
  display \<^verbatim>\<open>{k1: v1, k2: v2, ...}\<close> inserts its items from left to right.
\<close>

fun dict_set :: "'k \<Rightarrow> 'v \<Rightarrow> ('k \<times> 'v) list \<Rightarrow> ('k \<times> 'v) list" where
  "dict_set k v [] = [(k, v)]"
| "dict_set k v ((k', v') # d) = (if k' = k then (k, v) # d else (k', v') # dict_set k v d)"

definition dict_display :: "('k \<times> 'v) list \<Rightarrow> ('k \<times> 'v) list" where
  "dict_display items = foldl (\<lambda>d (k, v). dict_set k v d) [] items"

text \<open>The slice \<^verbatim>\<open>xs[-n:]\<close> for a positive \<open>n\<close>.\<close>

definition py_last_n :: "nat \<Rightarrow> 'a list \<Rightarrow> 'a list" where
  "py_last_n n xs = drop (length xs - n) xs"

text \<open>Truthiness of a value that is \<^verbatim>\<open>None\<close> or a string.\<close>

definition truthy :: "string option \<Rightarrow> bool" where
  "truthy s = (case s of None \<Rightarrow> False | Some x \<Rightarrow> x \<noteq> [])"

section \<open>FirehoseXMLHandler.parse\_response\<close>

text \<open>
  Python text is a sequence of code points. \<open>str_lit\<close> embeds an ASCII literal of the
  source.
\<close>

type_synonym unicode = "nat list"

definition str_lit :: "string \<Rightarrow> unicode" where
  "str_lit s = map of_char s"

definition starts_with :: "'a list \<Rightarrow> 'a list \<Rightarrow> bool" where
  "starts_with p s = (take (length p) s = p)"

text \<open>\<^verbatim>\<open>needle in haystack\<close> on strings.\<close>

fun contains :: "'a list \<Rightarrow> 'a list \<Rightarrow> bool" where
  "contains needle [] = (needle = [])"
| "contains needle (c # cs) = (starts_with needle (c # cs) \<or> contains needle cs)"

text \<open>
  \<^verbatim>\<open>re.search(r'value="([^"]+)"', s)\<close>, returning group 1 of the leftmost match.
  At a position where \<^verbatim>\<open>value="\<close> starts, the greedy class takes the longest run
  of characters other than the quote (code point 34); the match succeeds there exactly when
  that run is not empty and a quote follows it.
\<close>

fun re_search_value :: "unicode \<Rightarrow> unicode option" where
  "re_search_value [] = None"
| "re_search_value (c # cs) =
     (let s = c # cs; opening = str_lit ''value='' @ [34]
      in if starts_with opening s
         then (let rest = drop (length opening) s;
                   grp = takeWhile (\<lambda>x. x \<noteq> 34) rest;
                   after = dropWhile (\<lambda>x. x \<noteq> 34) rest
               in if grp \<noteq> [] \<and> after \<noteq> [] then Some grp else re_search_value cs)
         else re_search_value cs)"

text \<open>\<^verbatim>\<open>response.hex()\<close>.\<close>

definition bytes_hex :: "byte list \<Rightarrow> string" where
  "bytes_hex bs = concat (map format_02x bs)"

record parsed_response =
  raw :: string
  text_ :: unicode
  status :: string
  error :: "unicode option"
  data :: "byte list option"

text \<open>
  \<^verbatim>\<open>FirehoseXMLHandler.parse_response(response)\<close>. The codec call
  \<^verbatim>\<open>response.decode('utf-8', errors='ignore')\<close> belongs to the Python runtime and
  is the parameter \<open>decode\<close>. On a \<^verbatim>\<open>bytes\<close> argument no statement of the
  \<^verbatim>\<open>try\<close> block raises, so the \<^verbatim>\<open>parse_error\<close> handler is not reached.
\<close>

definition parse_response :: "(byte list \<Rightarrow> unicode) \<Rightarrow> byte list \<Rightarrow> parsed_response" where
  "parse_response decode response =
     (let response_str = decode response;
          result = \<lparr>raw = bytes_hex response, text_ = response_str, status = ''unknown'',
                    error = None, data = None\<rparr>;
          result =
            (if contains (str_lit ''ACK'') response_str then result\<lparr>status := ''ack''\<rparr>
             else if contains (str_lit ''NAK'') response_str
               then result\<lparr>status := ''nak'', error := Some (str_lit ''Device NAK response'')\<rparr>
             else if contains (str_lit ''ERROR'') response_str \<or> contains (str_lit ''error'') response_str
               then (let result = result\<lparr>status := ''error''\<rparr>
                     in case re_search_value response_str of
                          Some grp \<Rightarrow> result\<lparr>error := Some grp\<rparr>
                        | None \<Rightarrow> result)
             else if contains (str_lit ''<log '') response_str then result\<lparr>status := ''log''\<rparr>
             else result)
      in if take 1 response = [0x04]
         then result\<lparr>status := ''error_code_0x04'',
                     error := Some (str_lit ''Device returned error code 0x04 (Non-standard response)'')\<rparr>
         else result)"

section \<open>SLAResponseLogger\<close>

text \<open>
  The entries of the four streams. A response entry keeps the logged bytes themselves;
  the keys \<^verbatim>\<open>data_hex\<close>, \<^verbatim>\<open>data_size\<close> and \<^verbatim>\<open>data_ascii\<close> of the
  Python entry are renderings of these bytes, and likewise \<^verbatim>\<open>challenge_hex\<close> and
  \<^verbatim>\<open>size\<close> of a challenge entry.
\<close>

record response_entry =
  resp_timestamp :: string
  resp_source :: string
  resp_type :: string
  resp_status :: string
  resp_data :: "byte list"

record challenge_entry =
  chal_timestamp :: string
  chal_data :: "byte list"

record loader_entry =
  ldr_timestamp :: string
  ldr_loader :: string
  ldr_response :: string
  ldr_success :: bool

text \<open>
  The \<^verbatim>\<open>context\<close> of an error entry: the dictionary returned by
  \<^verbatim>\<open>handle_error\<close>, the dictionary \<^verbatim>\<open>{"address": ...}\<close>, or the empty
  dictionary that replaces a missing context.
\<close>

datatype error_context =
  ActionContext recovery_action
  | AddressContext string
  | EmptyContext

record error_entry =
  error_timestamp :: string
  error_type :: string
  error_message :: string
  error_context :: error_context

record SLAResponseLogger =
  sla_log_file :: string
  responses :: "response_entry list"
  sla_challenges :: "challenge_entry list"
  loader_responses :: "loader_entry list"
  errors :: "error_entry list"

definition SLAResponseLogger_init :: "string option \<Rightarrow> SLAResponseLogger" where
  "SLAResponseLogger_init log_file =
     \<lparr>sla_log_file = (if truthy log_file then the log_file else ''sla_response_log.json''),
      responses = [], sla_challenges = [], loader_responses = [], errors = []\<rparr>"

definition log_response ::
  "string \<Rightarrow> string \<Rightarrow> string \<Rightarrow> byte list \<Rightarrow> string \<Rightarrow> SLAResponseLogger \<Rightarrow> SLAResponseLogger" where
  "log_response timestamp source response_type bs st self =
     self\<lparr>responses := responses self @
       [\<lparr>resp_timestamp = timestamp, resp_source = source, resp_type = response_type,
         resp_status = st, resp_data = bs\<rparr>]\<rparr>"

text \<open>
  \<^verbatim>\<open>log_sla_challenge\<close>; the copy appended to the vault file lies outside the
  object and is not modelled.
\<close>

definition log_sla_challenge :: "string \<Rightarrow> byte list \<Rightarrow> SLAResponseLogger \<Rightarrow> SLAResponseLogger" where
  "log_sla_challenge timestamp challenge_data self =
     self\<lparr>sla_challenges := sla_challenges self @
       [\<lparr>chal_timestamp = timestamp, chal_data = challenge_data\<rparr>]\<rparr>"

definition log_loader_response ::
  "string \<Rightarrow> string \<Rightarrow> string \<Rightarrow> bool \<Rightarrow> SLAResponseLogger \<Rightarrow> SLAResponseLogger" where
  "log_loader_response timestamp loader_name resp ok self =
     self\<lparr>loader_responses := loader_responses self @
       [\<lparr>ldr_timestamp = timestamp, ldr_loader = loader_name, ldr_response = resp,
         ldr_success = ok\<rparr>]\<rparr>"

definition log_error ::
  "string \<Rightarrow> string \<Rightarrow> string \<Rightarrow> error_context \<Rightarrow> SLAResponseLogger \<Rightarrow> SLAResponseLogger" where
  "log_error timestamp etype error_msg ctx self =
     self\<lparr>errors := errors self @
       [\<lparr>error_timestamp = timestamp, error_type = etype, error_message = error_msg,
         error_context = ctx\<rparr>]\<rparr>"

text \<open>The values held by the diagnostics dictionary.\<close>

datatype diag_value =
  DStr string
  | DInt nat
  | DResponses "response_entry list"
  | DChallenges "challenge_entry list"
  | DLoaders "loader_entry list"
  | DErrors "error_entry list"

text \<open>
  \<^verbatim>\<open>save_diagnostics\<close>: the dictionary \<^verbatim>\<open>diagnostics\<close> handed to
  \<^verbatim>\<open>json.dump\<close>, built by the dictionary display of the source with its nine
  items in their order. \<open>now\<close> is the clock reading.
\<close>

definition diagnostics_document :: "string \<Rightarrow> SLAResponseLogger \<Rightarrow> (string \<times> diag_value) list" where
  "diagnostics_document now self =
     dict_display
       [(''timestamp'', DStr now),
        (''total_responses'', DInt (length (responses self))),
        (''sla_challenges_count'', DInt (length (sla_challenges self))),
        (''loader_responses'', DInt (length (loader_responses self))),
        (''errors_count'', DInt (length (errors self))),
        (''responses'', DResponses (py_last_n 100 (responses self))),
        (''sla_challenges'', DChallenges (sla_challenges self)),
        (''loader_responses'', DLoaders (loader_responses self)),
        (''errors'', DErrors (py_last_n 50 (errors self)))]"

text \<open>
  The method writes the document to \<^verbatim>\<open>self.log_file\<close> and returns the path, or
  \<^verbatim>\<open>None\<close> when opening or writing raises; \<open>write_error\<close> is that outcome of the
  file system. The result pairs the returned value with the document written, if any.
\<close>

definition save_diagnostics ::
  "string \<Rightarrow> py_exception option \<Rightarrow> SLAResponseLogger
     \<Rightarrow> string option \<times> (string \<times> diag_value) list option" where
  "save_diagnostics now write_error self =
     (let diagnostics = diagnostics_document now self
      in case write_error of
           None \<Rightarrow> (Some (sla_log_file self), Some diagnostics)
         | Some e \<Rightarrow> (None, None))"

text \<open>
  \<^verbatim>\<open>get_connection_summary\<close>. The returned text interpolates seven values; the model
  returns them, the rate as the number handed to the \<^verbatim>\<open>.1f\<close> format, in exact
  arithmetic. A raised exception is the left summand.
\<close>

record connection_summary =
  sum_total_responses :: nat
  sum_sla_challenges :: nat
  sum_loader_responses :: nat
  sum_errors :: nat
  sum_last_response :: string
  sum_last_error :: string
  sum_loader_success_rate :: real

definition get_connection_summary :: "SLAResponseLogger \<Rightarrow> py_exception + connection_summary" where
  "get_connection_summary self =
     (case py_truediv (int (length (filter ldr_success (loader_responses self))))
                      (max (int (length (loader_responses self))) 1) of
        Inl e \<Rightarrow> Inl e
      | Inr q \<Rightarrow>
          Inr \<lparr>sum_total_responses = length (responses self),
               sum_sla_challenges = length (sla_challenges self),
               sum_loader_responses = length (loader_responses self),
               sum_errors = length (errors self),
               sum_last_response =
                 (if responses self \<noteq> [] then resp_timestamp (last (responses self)) else ''None''),
               sum_last_error =
                 (if errors self \<noteq> [] then error_type (last (errors self)) else ''None''),
               sum_loader_success_rate = q * 100\<rparr>)"

section \<open>QFPROMExtractor: the two read channels\<close>

text \<open>
  Everything outside the program that a read meets, as a function of the address being
  read:
  \<^item> \<open>usb_write\<close>: \<^verbatim>\<open>self.device.write\<close> of the peek command returns
    (\<open>None\<close>) or raises;
  \<^item> \<open>usb_read\<close>: \<^verbatim>\<open>self.device.read\<close> returns bytes or raises;
  \<^item> \<open>edl_run\<close>: the external helper raises (from \<^verbatim>\<open>subprocess.run\<close>, or while
    the output file is read), or ends with a return code and leaves the output file with
    some content (\<open>Some\<close>) or no file;
  \<^item> \<open>log_append\<close>: opening \<^verbatim>\<open>self.log_file\<close> for append and writing one line
    succeeds or raises;
  \<^item> \<open>clock\<close>: the readings of \<^verbatim>\<open>datetime.now().isoformat()\<close> taken during the
    read, numbered 0 (for \<^verbatim>\<open>log_response\<close>), 1 (inside \<^verbatim>\<open>handle_error\<close>)
    and 2 (for \<^verbatim>\<open>log_error\<close>);
  \<^item> \<open>console\<close>: a \<^verbatim>\<open>print\<close> of \<^verbatim>\<open>scan_memory\<close> writes its line or raises
    (the stream cannot encode the text, or is closed), one outcome for each place that
    prints.
  A \<open>KeyboardInterrupt\<close> delivered while one of these operations is in progress is
  that operation raising it. Sleeps are not modelled here, nor are the calls of the
  \<^verbatim>\<open>logging\<close> module, whose handlers keep their own failures to themselves; the
  arguments of those calls are evaluated first and are modelled where they can raise.
\<close>

text \<open>
  The places where \<^verbatim>\<open>scan_memory\<close> prints: the three lines of the banner before
  the \<^verbatim>\<open>try\<close>, the line for a non-zero value at an address, the progress line
  (named by the address being processed), the five closing lines after the loop,
  and the line of each of the two \<^verbatim>\<open>except\<close> clauses.
\<close>

datatype print_site =
  BannerRange
  | BannerStep
  | BannerEstimate
  | FoundLine int
  | ProgressLine int
  | CompleteLine nat
  | InterruptedLine
  | ErrorLine

record world =
  usb_write :: "int \<Rightarrow> py_exception option"
  usb_read :: "int \<Rightarrow> py_exception + byte list"
  edl_run :: "int \<Rightarrow> py_exception + (int \<times> byte list option)"
  log_append :: "int \<Rightarrow> py_exception option"
  clock :: "int \<Rightarrow> nat \<Rightarrow> string"
  console :: "print_site \<Rightarrow> py_exception option"

text \<open>
  The object. \<open>device\<close> tells whether \<^verbatim>\<open>self.device\<close> holds a handle (it is
  \<^verbatim>\<open>None\<close> otherwise); \<open>scan_results\<close> is the dictionary in insertion order.
\<close>

record QFPROMExtractor =
  edl_binary :: "string option"
  loader :: "string option"
  device :: bool
  use_pyusb :: bool
  log_file :: string
  scan_results :: "(int \<times> string) list"
  enable_diagnostics :: bool
  sla_logger :: "SLAResponseLogger option"
  error_recovery :: USBErrorRecovery

definition NULL_PATTERN :: "byte list" where
  "NULL_PATTERN = [0x00, 0x00, 0x00, 0x00]"

definition DEFAULT_STEP :: int where
  "DEFAULT_STEP = 4"

text \<open>
  How \<^verbatim>\<open>__init__\<close> and \<^verbatim>\<open>_init_device\<close> leave the two transport fields:
  pyusb is not installed; no device was found (or the search raised); a device was found
  but configuring it raised, which keeps the handle and clears \<^verbatim>\<open>use_pyusb\<close>; or
  the device is configured.
\<close>

datatype usb_discovery = PyusbMissing | DeviceNotFound | ConfigurationFailed | DeviceReady

text \<open>\<^verbatim>\<open>QFPROMExtractor.__init__\<close>.\<close>

definition QFPROMExtractor_init ::
  "usb_discovery \<Rightarrow> string option \<Rightarrow> string option \<Rightarrow> string option \<Rightarrow> bool \<Rightarrow> string option
     \<Rightarrow> QFPROMExtractor" where
  "QFPROMExtractor_init found edl ldr logf diag diag_log =
     \<lparr>edl_binary = edl, loader = ldr,
      device = (found = ConfigurationFailed \<or> found = DeviceReady),
      use_pyusb = (found = DeviceReady),
      log_file = (if truthy logf then the logf else ''memory_scan.log''),
      scan_results = [],
      enable_diagnostics = diag,
      sla_logger = (if diag then Some (SLAResponseLogger_init diag_log) else None),
      error_recovery = USBErrorRecovery_init\<rparr>"

text \<open>
  The guarded call \<^verbatim>\<open>if self.enable_diagnostics and self.sla_logger: self.sla_logger.log_error(...)\<close>.
\<close>

definition diag_log_error ::
  "string \<Rightarrow> string \<Rightarrow> string \<Rightarrow> error_context \<Rightarrow> QFPROMExtractor \<Rightarrow> QFPROMExtractor" where
  "diag_log_error timestamp etype msg ctx self =
     (case sla_logger self of
        Some lg \<Rightarrow>
          (if enable_diagnostics self
           then self\<lparr>sla_logger := Some (log_error timestamp etype msg ctx lg)\<rparr>
           else self)
      | None \<Rightarrow> self)"

definition diag_log_response ::
  "string \<Rightarrow> string \<Rightarrow> string \<Rightarrow> byte list \<Rightarrow> string \<Rightarrow> QFPROMExtractor \<Rightarrow> QFPROMExtractor" where
  "diag_log_response timestamp source rtype bs st self =
     (case sla_logger self of
        Some lg \<Rightarrow>
          (if enable_diagnostics self
           then self\<lparr>sla_logger := Some (log_response timestamp source rtype bs st lg)\<rparr>
           else self)
      | None \<Rightarrow> self)"

text \<open>
  What \<^verbatim>\<open>_read_memory_pyusb\<close> does with an exception that reaches its outer
  \<^verbatim>\<open>except Exception\<close> clause: a \<open>KeyboardInterrupt\<close> is not caught there and
  goes on to the caller; anything else is logged and the method returns
  \<^verbatim>\<open>None\<close>.
\<close>

definition pyusb_outer_except ::
  "world \<Rightarrow> int \<Rightarrow> py_exception \<Rightarrow> QFPROMExtractor
     \<Rightarrow> (py_exception + byte list option) \<times> QFPROMExtractor" where
  "pyusb_outer_except w address e self =
     (if e = KeyboardInterrupt then (Inl e, self)
      else (Inr None,
            diag_log_error (clock w address 2) ''usb_exception'' (exception_str e)
              (AddressContext (''0x'' @ format_08x address)) self))"

text \<open>
  \<^verbatim>\<open>_read_memory_pyusb(address)\<close>: the returned value (or the exception that leaves
  the method) and the object afterwards.
\<close>

definition read_memory_pyusb ::
  "world \<Rightarrow> int \<Rightarrow> QFPROMExtractor \<Rightarrow> (py_exception + byte list option) \<times> QFPROMExtractor" where
  "read_memory_pyusb w address self =
     (if \<not> device self \<or> \<not> use_pyusb self then (Inr None, self)
      else case usb_write w address of
        Some e \<Rightarrow> pyusb_outer_except w address e self
      | None \<Rightarrow>
         (case usb_read w address of
            Inl (USBTimeoutError msg) \<Rightarrow>
              (case handle_error (clock w address 1) address 0xff (error_recovery self) of
                 (recovery_action, slept, rec') \<Rightarrow>
                   (Inr None,
                    diag_log_error (clock w address 2) ''usb_timeout''
                      (''Read timeout at 0x'' @ format_08x address) (ActionContext recovery_action)
                      (self\<lparr>error_recovery := rec'\<rparr>)))
          | Inl e \<Rightarrow> pyusb_outer_except w address e self
          | Inr response_bytes \<Rightarrow>
              (let self1 = diag_log_response (clock w address 0) ''pyusb'' ''peek_response''
                             (take 16 response_bytes) ''OK'' self
               in if length response_bytes > 0 \<and> hd response_bytes = 0x04 then
                    (case handle_error (clock w address 1) address 0x04 (error_recovery self1) of
                       (recovery_action, slept, rec') \<Rightarrow>
                         (Inr None,
                          diag_log_error (clock w address 2) ''usb_error_0x04''
                            (''Non-standard response at 0x'' @ format_08x address)
                            (ActionContext recovery_action)
                            (self1\<lparr>error_recovery := rec'\<rparr>)))
                  else
                    (let self2 = self1\<lparr>error_recovery := reset_error_count (error_recovery self1)\<rparr>
                     in (Inr (if length response_bytes \<ge> 4 then Some (take 4 response_bytes) else None),
                         self2)))))"

text \<open>
  \<^verbatim>\<open>_read_memory_fallback(address)\<close>. Its \<^verbatim>\<open>except Exception\<close> clause turns
  every exception but \<open>KeyboardInterrupt\<close> into \<^verbatim>\<open>None\<close>; \<^verbatim>\<open>f.read(4)\<close>
  yields at most the first four bytes of the file.
\<close>

definition read_memory_fallback ::
  "world \<Rightarrow> int \<Rightarrow> QFPROMExtractor \<Rightarrow> (py_exception + byte list option) \<times> QFPROMExtractor" where
  "read_memory_fallback w address self =
     (if \<not> truthy (edl_binary self) \<or> \<not> truthy (loader self) then (Inr None, self)
      else case edl_run w address of
        Inl e \<Rightarrow> (if e = KeyboardInterrupt then (Inl e, self) else (Inr None, self))
      | Inr (returncode, file) \<Rightarrow>
          (case file of
             Some content \<Rightarrow>
               (if returncode = 0
                then (let bs = take 4 content
                      in (Inr (if length bs = 4 then Some bs else None), self))
                else (Inr None, self))
           | None \<Rightarrow> (Inr None, self)))"

text \<open>\<^verbatim>\<open>_read_single_address(address)\<close>.\<close>

definition read_single_address ::
  "world \<Rightarrow> int \<Rightarrow> QFPROMExtractor \<Rightarrow> (py_exception + byte list option) \<times> QFPROMExtractor" where
  "read_single_address w address self =
     (if use_pyusb self \<and> device self then
        (case read_memory_pyusb w address self of
           (Inl e, self') \<Rightarrow> (Inl e, self')
         | (Inr (Some bs), self') \<Rightarrow> (Inr (Some bs), self')
         | (Inr None, self') \<Rightarrow> read_memory_fallback w address self')
      else read_memory_fallback w address self)"

section \<open>QFPROMExtractor.scan\_memory\<close>

text \<open>
  The local variables of \<^verbatim>\<open>scan_memory\<close> together with the object, plus two
  records of what the sweep did outside the object: \<open>log_lines\<close>, the lines appended
  to \<^verbatim>\<open>self.log_file\<close>, and \<open>attempted\<close>, the addresses handed to
  \<^verbatim>\<open>_read_single_address\<close>, both in order of occurrence.
\<close>

record scan_state =
  scanner :: QFPROMExtractor
  reads_completed :: int
  non_zero_count :: int
  log_lines :: "string list"
  attempted :: "int list"

text \<open>\<^verbatim>\<open>' '.join(f'{b:02x}' for b in data)\<close>.\<close>

fun join_space :: "string list \<Rightarrow> string" where
  "join_space [] = []"
| "join_space [x] = x"
| "join_space (x # y # ys) = x @ '' '' @ join_space (y # ys)"

definition hex_value :: "byte list \<Rightarrow> string" where
  "hex_value bs = join_space (map format_02x bs)"

text \<open>
  The step in force inside the loop: the parameter, replaced by 4 when it is below 1.
\<close>

definition effective_step :: "int \<Rightarrow> int" where
  "effective_step step = (if step < 1 then 4 else step)"

text \<open>Several prints in a row: the first that raises ends the row.\<close>

fun print_all :: "world \<Rightarrow> print_site list \<Rightarrow> py_exception option" where
  "print_all w [] = None"
| "print_all w (p # ps) = (case console w p of Some e \<Rightarrow> Some e | None \<Rightarrow> print_all w ps)"

text \<open>
  One pass through the body of the \<^verbatim>\<open>while\<close> loop at \<open>current_addr\<close>, up to but
  not including \<^verbatim>\<open>current_addr += step\<close>. \<open>Some e\<close> is the exception that leaves
  the body, with the state at that moment. For a non-zero value the source stores the
  entry, prints the line, counts it and appends to the log file, in this order. Every 256
  reads it computes \<^verbatim>\<open>reads_completed / total_reads\<close> and prints the progress line.
\<close>

definition scan_body ::
  "world \<Rightarrow> int \<Rightarrow> int \<Rightarrow> scan_state \<Rightarrow> py_exception option \<times> scan_state" where
  "scan_body w total_reads current_addr st0 =
     (let st1 = st0\<lparr>reads_completed := reads_completed st0 + 1,
                   attempted := attempted st0 @ [current_addr]\<rparr>
      in case read_single_address w current_addr (scanner st1) of
        (Inl e, self') \<Rightarrow> (Some e, st1\<lparr>scanner := self'\<rparr>)
      | (Inr bytes_read, self') \<Rightarrow>
         (let st2 = st1\<lparr>scanner := self'\<rparr>;
              stored =
                (case bytes_read of
                   None \<Rightarrow> (None, st2)
                 | Some bs \<Rightarrow>
                    (if length bs < 4 then (None, st2)
                     else if bs \<noteq> NULL_PATTERN then
                       (let log_msg = ''0x'' @ format_08x current_addr @ '': '' @ hex_value bs;
                            st3 = st2\<lparr>scanner := (scanner st2)\<lparr>scan_results :=
                                        dict_set current_addr (hex_value bs) (scan_results (scanner st2))\<rparr>\<rparr>
                        in case console w (FoundLine current_addr) of
                             Some e \<Rightarrow> (Some e, st3)
                           | None \<Rightarrow>
                              (let st3' = st3\<lparr>non_zero_count := non_zero_count st3 + 1\<rparr>
                               in case log_append w current_addr of
                                    Some e \<Rightarrow> (Some e, st3')
                                  | None \<Rightarrow> (None, st3'\<lparr>log_lines := log_lines st3' @ [log_msg]\<rparr>)))
                     else (None, st2)))
          in case stored of
               (Some e, st4) \<Rightarrow> (Some e, st4)
             | (None, st4) \<Rightarrow>
                 (if reads_completed st4 mod 256 = 0
                  then (case py_truediv (reads_completed st4) total_reads of
                          Inl e \<Rightarrow> (Some e, st4)
                        | Inr pct \<Rightarrow> (console w (ProgressLine current_addr), st4))
                  else (None, st4))))"

text \<open>
  The \<^verbatim>\<open>while current_addr < end_addr\<close> loop. By the time the loop runs the
  source has replaced a step below 1 by 4, so the loop advances by \<open>effective_step\<close>
  of its argument, which is the argument itself whenever that is 1 or more.
\<close>

function scan_loop ::
  "world \<Rightarrow> int \<Rightarrow> int \<Rightarrow> int \<Rightarrow> int \<Rightarrow> scan_state \<Rightarrow> py_exception option \<times> scan_state" where
  "scan_loop w end_addr step total_reads current_addr st =
     (if current_addr < end_addr then
        (case scan_body w total_reads current_addr st of
           (Some e, st') \<Rightarrow> (Some e, st')
         | (None, st') \<Rightarrow>
             scan_loop w end_addr step total_reads (current_addr + effective_step step) st')
      else (None, st))"
  by pat_completeness auto
termination
  by (relation "measure (\<lambda>(w, end_addr, step, total_reads, current_addr, st). nat (end_addr - current_addr))")
     (auto simp: effective_step_def)

declare scan_loop.simps [simp del]

text \<open>
  The statements of \<^verbatim>\<open>scan_memory\<close> between the initialisation of its variables
  and the \<^verbatim>\<open>try\<close>: the arguments of the logging calls, among them
  \<^verbatim>\<open>total_reads * 0.01\<close>, and then the three banner prints. \<open>Some e\<close> is the
  exception raised there; no handler of the method covers these statements.
\<close>

definition scan_banner :: "world \<Rightarrow> int \<Rightarrow> py_exception option" where
  "scan_banner w total_reads =
     (if int_to_float_overflows total_reads then Some OverflowError
      else print_all w [BannerRange, BannerStep, BannerEstimate])"

text \<open>
  The body of the \<^verbatim>\<open>try\<close>: the loop, then the five closing prints.
\<close>

definition scan_try ::
  "world \<Rightarrow> int \<Rightarrow> int \<Rightarrow> int \<Rightarrow> int \<Rightarrow> scan_state \<Rightarrow> py_exception option \<times> scan_state" where
  "scan_try w end_addr step total_reads start_addr st0 =
     (case scan_loop w end_addr step total_reads start_addr st0 of
        (Some e, st) \<Rightarrow> (Some e, st)
      | (None, st) \<Rightarrow>
          (print_all w [CompleteLine 0, CompleteLine 1, CompleteLine 2, CompleteLine 3,
                        CompleteLine 4], st))"

text \<open>
  How a call of \<^verbatim>\<open>scan_memory\<close> that returns ended: the \<^verbatim>\<open>try\<close> body ran
  to its end, the \<^verbatim>\<open>except KeyboardInterrupt\<close> clause returned, or the
  \<^verbatim>\<open>except Exception\<close> clause returned (with the message it logs).
\<close>

datatype scan_outcome = Completed | Interrupted | Aborted string

text \<open>
  \<^verbatim>\<open>scan_memory(start_addr, end_addr, step)\<close>: the left summand is an exception that
  leaves the method, the right one the way it ended and the dictionary it returns. The
  second component is the state at that moment. An exception raised by the print inside
  an \<^verbatim>\<open>except\<close> clause is not caught by the other clause and leaves the method.
\<close>

definition scan_memory ::
  "world \<Rightarrow> int \<Rightarrow> int \<Rightarrow> int \<Rightarrow> QFPROMExtractor
     \<Rightarrow> (py_exception + scan_outcome \<times> (int \<times> string) list) \<times> scan_state" where
  "scan_memory w start_addr end_addr step self =
     (let step' = effective_step step;
          total_reads = (end_addr - start_addr) div step';
          st0 = \<lparr>scanner = self\<lparr>scan_results := []\<rparr>, reads_completed = 0, non_zero_count = 0,
                 log_lines = [], attempted = []\<rparr>
      in case scan_banner w total_reads of
           Some e \<Rightarrow> (Inl e, st0)
         | None \<Rightarrow>
            (case scan_try w end_addr step' total_reads start_addr st0 of
               (None, st) \<Rightarrow> (Inr (Completed, scan_results (scanner st)), st)
             | (Some KeyboardInterrupt, st) \<Rightarrow>
                 (case console w InterruptedLine of
                    Some e' \<Rightarrow> (Inl e', st)
                  | None \<Rightarrow> (Inr (Interrupted, scan_results (scanner st)), st))
             | (Some e, st) \<Rightarrow>
                 (case console w ErrorLine of
                    Some e' \<Rightarrow> (Inl e', st)
                  | None \<Rightarrow> (Inr (Aborted (exception_str e), scan_results (scanner st)), st))))"

text \<open>
  The addresses \<open>start, start + step, start + 2 * step, ...\<close> below \<open>end\<close>, in
  ascending order: the sequence the specification says a sweep visits.
\<close>

definition scan_addresses :: "int \<Rightarrow> int \<Rightarrow> int \<Rightarrow> int list" where
  "scan_addresses start_addr end_addr step =
     map (\<lambda>k. start_addr + int k * step)
         [0 ..< nat ((end_addr - start_addr + step - 1) div step)]"

text \<open>
  What the read at an address gives a sweep that starts from object \<open>self\<close>: the value
  stored for the address, if any, and whether the user interrupts the read.
\<close>

definition discovery :: "world \<Rightarrow> QFPROMExtractor \<Rightarrow> int \<Rightarrow> string option" where
  "discovery w self a =
     (case fst (read_single_address w a self) of
        Inr (Some bs) \<Rightarrow> (if length bs \<ge> 4 \<and> bs \<noteq> NULL_PATTERN then Some (hex_value bs) else None)
      | _ \<Rightarrow> None)"

definition interrupted_at :: "world \<Rightarrow> QFPROMExtractor \<Rightarrow> int \<Rightarrow> bool" where
  "interrupted_at w self a = (fst (read_single_address w a self) = Inl KeyboardInterrupt)"

text \<open>
  A run in which every print succeeds and every append to the log file succeeds.
\<close>

definition io_succeeds :: "world \<Rightarrow> bool" where
  "io_succeeds w = ((\<forall>p. console w p = None) \<and> (\<forall>a. log_append w a = None))"

text \<open>The dictionary holding the discoveries at the given addresses, in that order.\<close>

definition discoveries :: "world \<Rightarrow> QFPROMExtractor \<Rightarrow> int list \<Rightarrow> (int \<times> string) list" where
  "discoveries w self addrs =
     concat (map (\<lambda>a. case discovery w self a of Some v \<Rightarrow> [(a, v)] | None \<Rightarrow> []) addrs)"

text \<open>The elements of a list up to and including the first one that satisfies \<open>p\<close>.\<close>

fun take_through :: "('a \<Rightarrow> bool) \<Rightarrow> 'a list \<Rightarrow> 'a list" where
  "take_through p [] = []"
| "take_through p (x # xs) = (if p x then [x] else x # take_through p xs)"

text \<open>
  The fields of the object that the two channels read and never write.
\<close>

definition same_config :: "QFPROMExtractor \<Rightarrow> QFPROMExtractor \<Rightarrow> bool" where
  "same_config s1 s2 =
     (device s1 = device s2 \<and> use_pyusb s1 = use_pyusb s2 \<and>
      edl_binary s1 = edl_binary s2 \<and> loader s1 = loader s2)"

section \<open>A stub transport for concrete runs\<close>

text \<open>
  A device whose writes succeed and whose reads are given by a function of the address,
  with no external helper available, a writable log file and a working console; and the object built by
  \<^verbatim>\<open>QFPROMExtractor()\<close> with default arguments when the device is ready.
\<close>

definition stub_world :: "(int \<Rightarrow> py_exception + byte list) \<Rightarrow> world" where
  "stub_world reads =
     \<lparr>usb_write = (\<lambda>a. None), usb_read = reads,
      edl_run = (\<lambda>a. Inl (OtherException ''helper not installed'')),
      log_append = (\<lambda>a. None), clock = (\<lambda>a n. ''2026-01-01T00:00:00''),
      console = (\<lambda>p. None)\<rparr>"

definition stub_scanner :: QFPROMExtractor where
  "stub_scanner = QFPROMExtractor_init DeviceReady None None None True None"

section \<open>Properties of the error-recovery policy\<close>

lemma recovery_inv_init: "recovery_inv USBErrorRecovery_init"
  by (simp add: recovery_inv_def USBErrorRecovery_init_def)

lemma recovery_inv_reset: "recovery_inv s \<Longrightarrow> recovery_inv (reset_error_count s)"
  by (simp add: recovery_inv_def reset_error_count_def)

lemma recovery_inv_handle_error:
  assumes "recovery_inv s" and "handle_error now a c s = (act, sl, s')"
  shows "recovery_inv s' \<and> action act \<noteq> ''skip_to_next_block''"
  using assms
  by (auto simp: recovery_inv_def handle_error_def default_skip_def Let_def split: if_splits)

lemma recovery_inv_run_calls:
  "recovery_inv s \<Longrightarrow> run_calls cs s = (acts, s') \<Longrightarrow>
   recovery_inv s' \<and> (\<forall>a \<in> set acts. action a \<noteq> ''skip_to_next_block'')"
proof (induction cs s arbitrary: acts s' rule: run_calls.induct)
  case (1 self)
  then show ?case by simp
next
  case (2 now address code cs self)
  obtain a sl s1 where h: "handle_error now address code self = (a, sl, s1)"
    by (cases "handle_error now address code self") auto
  obtain as s2 where r: "run_calls cs s1 = (as, s2)"
    by (cases "run_calls cs s1") auto
  from "2.prems"(1) h have i1: "recovery_inv s1" and na: "action a \<noteq> ''skip_to_next_block''"
    using recovery_inv_handle_error by blast+
  from "2.prems"(2) h r have eq: "acts = a # as" "s' = s2" by simp_all
  from "2.IH"[OF h[symmetric] refl i1 r] na eq show ?case by simp
next
  case (3 cs self)
  then show ?case by (simp add: recovery_inv_reset)
qed

text \<open>
  Claim C1. Five consecutive \<^verbatim>\<open>handle_error\<close> calls with code \<open>0x04\<close> on a fresh
  object are claimed to end in one \<^verbatim>\<open>skip_to_next_block\<close> action and one recorded
  skip region. The code does otherwise: whatever the five addresses and clock readings,
  all five calls return \<^verbatim>\<open>skip_address\<close> (next address four bytes further), no
  region is recorded, and the counter, reset to 0 by the third call, stands at 2.
\<close>

theorem five_0x04_errors_emit_no_block_skip:
  "map action (fst (run_calls
      [HandleError t1 a1 0x04, HandleError t2 a2 0x04, HandleError t3 a3 0x04,
       HandleError t4 a4 0x04, HandleError t5 a5 0x04] USBErrorRecovery_init))
     = [''skip_address'', ''skip_address'', ''skip_address'', ''skip_address'', ''skip_address''] \<and>
   map next_address (fst (run_calls
      [HandleError t1 a1 0x04, HandleError t2 a2 0x04, HandleError t3 a3 0x04,
       HandleError t4 a4 0x04, HandleError t5 a5 0x04] USBErrorRecovery_init))
     = [a1 + 4, a2 + 4, a3 + 4, a4 + 4, a5 + 4] \<and>
   skip_regions (snd (run_calls
      [HandleError t1 a1 0x04, HandleError t2 a2 0x04, HandleError t3 a3 0x04,
       HandleError t4 a4 0x04, HandleError t5 a5 0x04] USBErrorRecovery_init)) = [] \<and>
   error_count (snd (run_calls
      [HandleError t1 a1 0x04, HandleError t2 a2 0x04, HandleError t3 a3 0x04,
       HandleError t4 a4 0x04, HandleError t5 a5 0x04] USBErrorRecovery_init)) = 2"
  by (simp add: handle_error_def default_skip_def USBErrorRecovery_init_def Let_def)

text \<open>
  Claim C2. From a fresh object, after any finite sequence of \<^verbatim>\<open>handle_error\<close> and
  \<^verbatim>\<open>reset_error_count\<close> calls (and so after each call of the sequence, taking
  prefixes) the stored count lies between 0 and 2, the count after the next increment
  stays below the threshold, no skip region has been recorded, and no call has returned
  \<^verbatim>\<open>skip_to_next_block\<close>.
\<close>

theorem error_count_never_reaches_threshold:
  "0 \<le> error_count (snd (run_calls (take n cs) USBErrorRecovery_init)) \<and>
   error_count (snd (run_calls (take n cs) USBErrorRecovery_init)) \<le> 2 \<and>
   error_count (snd (run_calls (take n cs) USBErrorRecovery_init)) + 1
     < error_threshold (snd (run_calls (take n cs) USBErrorRecovery_init)) \<and>
   skip_regions (snd (run_calls (take n cs) USBErrorRecovery_init)) = [] \<and>
   (\<forall>a \<in> set (fst (run_calls cs USBErrorRecovery_init)). action a \<noteq> ''skip_to_next_block'')"
proof -
  have p: "recovery_inv (snd (run_calls (take n cs) USBErrorRecovery_init))"
    using recovery_inv_run_calls[OF recovery_inv_init, of "take n cs"]
    by (cases "run_calls (take n cs) USBErrorRecovery_init") simp
  have q: "\<forall>a \<in> set (fst (run_calls cs USBErrorRecovery_init)). action a \<noteq> ''skip_to_next_block''"
    using recovery_inv_run_calls[OF recovery_inv_init, of cs]
    by (cases "run_calls cs USBErrorRecovery_init") simp
  from p q show ?thesis by (simp add: recovery_inv_def)
qed

theorem error_count_never_reaches_threshold_witness:
  "error_count (snd (run_calls (take 5 (map (\<lambda>i. HandleError ''t'' (0x00701000 + i * 4) 0x04) [0, 1, 2, 3, 4, 5]))
       USBErrorRecovery_init)) = 2 \<and>
   map action (fst (run_calls (map (\<lambda>i. HandleError ''t'' (0x00701000 + i * 4) 0x04) [0, 1, 2, 3, 4, 5])
       USBErrorRecovery_init))
     = [''skip_address'', ''skip_address'', ''skip_address'', ''skip_address'', ''skip_address'',
        ''skip_address'']"
  using error_count_never_reaches_threshold
    [of 5 "map (\<lambda>i. HandleError ''t'' (0x00701000 + i * 4) 0x04) [0, 1, 2, 3, 4, 5]"]
  by (simp add: handle_error_def default_skip_def USBErrorRecovery_init_def Let_def)

text \<open>
  Claim C4. From a count of 0, the first and the second consecutive call with code
  \<open>0xff\<close> sleep two seconds and return \<^verbatim>\<open>retry\<close> with the call's own address as
  next address and a delay of 2000 ms; the third returns \<^verbatim>\<open>skip_address\<close> and
  leaves the count at 0.
\<close>

theorem timeout_retries_twice_then_skips:
  assumes "error_count s = 0"
    and "handle_error t1 a1 0xff s = (r1, sl1, s1)"
    and "handle_error t2 a2 0xff s1 = (r2, sl2, s2)"
    and "handle_error t3 a3 0xff s2 = (r3, sl3, s3)"
  shows "action r1 = ''retry'' \<and> next_address r1 = a1 \<and> delay_ms r1 = Some 2000 \<and> sl1 = 2 \<and>
         action r2 = ''retry'' \<and> next_address r2 = a2 \<and> delay_ms r2 = Some 2000 \<and> sl2 = 2 \<and>
         action r3 = ''skip_address'' \<and> next_address r3 = a3 + 4 \<and> skip_size r3 = Some 4 \<and>
         error_count s1 = 1 \<and> error_count s2 = 2 \<and> error_count s3 = 0"
  using assms
  by (auto simp: handle_error_def default_skip_def Let_def split: if_splits)

theorem timeout_retries_twice_then_skips_witness:
  "map action (fst (run_calls [HandleError ''t1'' 0x700000 0xff, HandleError ''t2'' 0x700000 0xff,
       HandleError ''t3'' 0x700000 0xff] USBErrorRecovery_init)) = [''retry'', ''retry'', ''skip_address''] \<and>
   error_count (snd (run_calls [HandleError ''t1'' 0x700000 0xff, HandleError ''t2'' 0x700000 0xff,
       HandleError ''t3'' 0x700000 0xff] USBErrorRecovery_init)) = 0"
proof -
  obtain r1 sl1 s1 where h1: "handle_error ''t1'' 0x700000 0xff USBErrorRecovery_init = (r1, sl1, s1)"
    by (cases "handle_error ''t1'' 0x700000 0xff USBErrorRecovery_init") auto
  obtain r2 sl2 s2 where h2: "handle_error ''t2'' 0x700000 0xff s1 = (r2, sl2, s2)"
    by (cases "handle_error ''t2'' 0x700000 0xff s1") auto
  obtain r3 sl3 s3 where h3: "handle_error ''t3'' 0x700000 0xff s2 = (r3, sl3, s3)"
    by (cases "handle_error ''t3'' 0x700000 0xff s2") auto
  have z: "error_count USBErrorRecovery_init = 0" by (simp add: USBErrorRecovery_init_def)
  from timeout_retries_twice_then_skips[OF z h1 h2 h3] h1 h2 h3 show ?thesis by simp
qed

section \<open>Properties of the response classification\<close>

text \<open>
  Claim C7. A response whose first byte is \<open>0x04\<close> is classified
  \<^verbatim>\<open>error_code_0x04\<close> whatever its text decodes to; and for every response the status
  is given by the ordered rule list with the first-byte rule first, then \<^verbatim>\<open>ACK\<close>,
  \<^verbatim>\<open>NAK\<close>, the error markers, the log tag, and \<^verbatim>\<open>unknown\<close> last.
\<close>

theorem first_byte_0x04_takes_precedence:
  "status (parse_response decode (0x04 # rest)) = ''error_code_0x04'' \<and>
   status (parse_response decode response) =
     (if take 1 response = [0x04] then ''error_code_0x04''
      else if contains (str_lit ''ACK'') (decode response) then ''ack''
      else if contains (str_lit ''NAK'') (decode response) then ''nak''
      else if contains (str_lit ''ERROR'') (decode response) \<or> contains (str_lit ''error'') (decode response)
        then ''error''
      else if contains (str_lit ''<log '') (decode response) then ''log''
      else ''unknown'')"
  by (simp add: parse_response_def Let_def split: option.splits)

theorem first_byte_0x04_takes_precedence_witness:
  "status (parse_response (map unat) (0x04 # map of_char ''<response value=ACK /> NAK ERROR <log '')) = ''error_code_0x04'' \<and>
   contains (str_lit ''ACK'') (map unat (0x04 # map of_char ''<response value=ACK /> NAK ERROR <log '' :: byte list)) \<and>
   status (parse_response (map unat) (map of_char ''<response value=ACK /> NAK ERROR <log '')) = ''ack''"
  using first_byte_0x04_takes_precedence[of "map unat" "map of_char ''<response value=ACK /> NAK ERROR <log ''"
      "map of_char ''<response value=ACK /> NAK ERROR <log ''"]
  by (simp add: str_lit_def starts_with_def)

section \<open>Properties of the diagnostics collector\<close>

lemma length_py_last_n: "length (py_last_n n xs) = min n (length xs)"
  by (simp add: py_last_n_def)

text \<open>
  Claim C6. The saved document is claimed to hold the count of each of the four streams.
  It holds three: the display of the source uses the key \<^verbatim>\<open>loader_responses\<close>
  twice, first for the count and then for the list, and the second item replaces the
  first, so the document written by \<^verbatim>\<open>save_diagnostics\<close> has the eight items
  below and no count of loader launches. The rest of the claim holds: the last 100
  responses (all of them when there are fewer), the last 50 errors, and every challenge.
\<close>

theorem diagnostics_document_loses_loader_count:
  "diagnostics_document now self =
     [(''timestamp'', DStr now),
      (''total_responses'', DInt (length (responses self))),
      (''sla_challenges_count'', DInt (length (sla_challenges self))),
      (''loader_responses'', DLoaders (loader_responses self)),
      (''errors_count'', DInt (length (errors self))),
      (''responses'', DResponses (py_last_n 100 (responses self))),
      (''sla_challenges'', DChallenges (sla_challenges self)),
      (''errors'', DErrors (py_last_n 50 (errors self)))] \<and>
   map_of (diagnostics_document now self) ''loader_responses''
     \<noteq> Some (DInt (length (loader_responses self))) \<and>
   length (py_last_n 100 (responses self)) = min 100 (length (responses self)) \<and>
   length (py_last_n 50 (errors self)) = min 50 (length (errors self)) \<and>
   save_diagnostics now None self = (Some (sla_log_file self), Some (diagnostics_document now self))"
  by (simp add: diagnostics_document_def dict_display_def length_py_last_n save_diagnostics_def)

text \<open>
  Claim C10. \<^verbatim>\<open>get_connection_summary\<close> raises nothing: it returns a summary whose
  rate is the number of successful loader launches divided by the larger of the number
  of launches and 1, times 100; with no launch logged the rate is 0.
\<close>

theorem loader_success_rate_never_divides_by_zero:
  "(\<exists>s. get_connection_summary self = Inr s \<and>
        sum_loader_success_rate s =
          real (length (filter ldr_success (loader_responses self)))
            / real (max (length (loader_responses self)) 1) * 100) \<and>
   (\<exists>s. get_connection_summary (self\<lparr>loader_responses := []\<rparr>) = Inr s \<and> sum_loader_success_rate s = 0)"
  by (auto simp: get_connection_summary_def py_truediv_def max_def)

theorem loader_success_rate_never_divides_by_zero_witness:
  "(\<exists>s. get_connection_summary (SLAResponseLogger_init None) = Inr s \<and> sum_loader_success_rate s = 0) \<and>
   (\<exists>s. get_connection_summary (log_loader_response ''t0'' ''a.elf'' ''ok'' True
            (log_loader_response ''t0'' ''b.elf'' ''failed'' False (SLAResponseLogger_init None))) = Inr s \<and>
         sum_loader_success_rate s = 50)"
  using loader_success_rate_never_divides_by_zero[of "SLAResponseLogger_init None"]
    loader_success_rate_never_divides_by_zero[of "log_loader_response ''t0'' ''a.elf'' ''ok'' True
            (log_loader_response ''t0'' ''b.elf'' ''failed'' False (SLAResponseLogger_init None))"]
  by (simp add: SLAResponseLogger_init_def log_loader_response_def)

section \<open>Properties of the read channels and of the sweep\<close>

lemma same_config_refl: "same_config s s"
  by (simp add: same_config_def)

lemma diag_log_error_fields:
  "device (diag_log_error t ty m c s) = device s"
  "use_pyusb (diag_log_error t ty m c s) = use_pyusb s"
  "edl_binary (diag_log_error t ty m c s) = edl_binary s"
  "loader (diag_log_error t ty m c s) = loader s"
  "scan_results (diag_log_error t ty m c s) = scan_results s"
  "error_recovery (diag_log_error t ty m c s) = error_recovery s"
  by (simp_all add: diag_log_error_def split: option.splits)

lemma diag_log_response_fields:
  "device (diag_log_response t so ty b st s) = device s"
  "use_pyusb (diag_log_response t so ty b st s) = use_pyusb s"
  "edl_binary (diag_log_response t so ty b st s) = edl_binary s"
  "loader (diag_log_response t so ty b st s) = loader s"
  "scan_results (diag_log_response t so ty b st s) = scan_results s"
  "error_recovery (diag_log_response t so ty b st s) = error_recovery s"
  by (simp_all add: diag_log_response_def split: option.splits)

lemma read_memory_pyusb_result:
  "fst (read_memory_pyusb w a self) =
     (if \<not> device self \<or> \<not> use_pyusb self then Inr None
      else case usb_write w a of
        Some e \<Rightarrow> (if e = KeyboardInterrupt then Inl e else Inr None)
      | None \<Rightarrow>
         (case usb_read w a of
            Inl e \<Rightarrow> (if e = KeyboardInterrupt then Inl e else Inr None)
          | Inr bs \<Rightarrow>
              (if bs \<noteq> [] \<and> hd bs = 0x04 then Inr None
               else Inr (if length bs \<ge> 4 then Some (take 4 bs) else None))))"
  by (simp add: read_memory_pyusb_def pyusb_outer_except_def Let_def
      split: option.splits sum.splits py_exception.splits prod.splits)

lemma read_memory_pyusb_fields:
  "device (snd (read_memory_pyusb w a self)) = device self \<and>
   use_pyusb (snd (read_memory_pyusb w a self)) = use_pyusb self \<and>
   edl_binary (snd (read_memory_pyusb w a self)) = edl_binary self \<and>
   loader (snd (read_memory_pyusb w a self)) = loader self \<and>
   scan_results (snd (read_memory_pyusb w a self)) = scan_results self"
  by (simp add: read_memory_pyusb_def pyusb_outer_except_def Let_def
        diag_log_error_fields diag_log_response_fields
      split: option.splits sum.splits py_exception.splits prod.splits)

lemma read_memory_fallback_state: "snd (read_memory_fallback w a self) = self"
  by (simp add: read_memory_fallback_def Let_def split: option.splits sum.splits prod.splits)

lemma read_memory_fallback_result:
  "fst (read_memory_fallback w a self) =
     (if \<not> truthy (edl_binary self) \<or> \<not> truthy (loader self) then Inr None
      else case edl_run w a of
        Inl e \<Rightarrow> (if e = KeyboardInterrupt then Inl e else Inr None)
      | Inr (returncode, file) \<Rightarrow>
          (case file of
             Some content \<Rightarrow>
               (if returncode = 0 \<and> length content \<ge> 4 then Inr (Some (take 4 content)) else Inr None)
           | None \<Rightarrow> Inr None))"
  by (simp add: read_memory_fallback_def Let_def split: option.splits sum.splits prod.splits)

lemma read_memory_fallback_cong:
  "edl_binary s1 = edl_binary s2 \<Longrightarrow> loader s1 = loader s2 \<Longrightarrow>
   fst (read_memory_fallback w a s1) = fst (read_memory_fallback w a s2)"
  by (simp add: read_memory_fallback_result)

lemma read_single_address_result:
  "fst (read_single_address w a self) =
     (if use_pyusb self \<and> device self then
        (case fst (read_memory_pyusb w a self) of
           Inl e \<Rightarrow> Inl e
         | Inr (Some bs) \<Rightarrow> Inr (Some bs)
         | Inr None \<Rightarrow> fst (read_memory_fallback w a self))
      else fst (read_memory_fallback w a self))"
proof -
  obtain r s' where p: "read_memory_pyusb w a self = (r, s')"
    by (cases "read_memory_pyusb w a self") auto
  have "edl_binary s' = edl_binary self" "loader s' = loader self"
    using read_memory_pyusb_fields[of w a self] p by simp_all
  then have "fst (read_memory_fallback w a s') = fst (read_memory_fallback w a self)"
    by (rule read_memory_fallback_cong)
  with p show ?thesis
    by (simp add: read_single_address_def split: sum.splits option.splits)
qed

lemma read_single_address_cong:
  "same_config s1 s2 \<Longrightarrow> fst (read_single_address w a s1) = fst (read_single_address w a s2)"
proof -
  assume c: "same_config s1 s2"
  have p: "fst (read_memory_pyusb w a s1) = fst (read_memory_pyusb w a s2)"
    using c by (simp add: read_memory_pyusb_result same_config_def)
  have f: "fst (read_memory_fallback w a s1) = fst (read_memory_fallback w a s2)"
    using c by (intro read_memory_fallback_cong) (simp_all add: same_config_def)
  have g: "(use_pyusb s1 \<and> device s1) = (use_pyusb s2 \<and> device s2)"
    using c by (simp add: same_config_def)
  show ?thesis
    by (simp only: read_single_address_result p f g)
qed

lemma read_single_address_fields:
  "same_config (snd (read_single_address w a self)) self \<and>
   scan_results (snd (read_single_address w a self)) = scan_results self"
proof -
  obtain r s' where p: "read_memory_pyusb w a self = (r, s')"
    by (cases "read_memory_pyusb w a self") auto
  have f: "device s' = device self" "use_pyusb s' = use_pyusb self" "edl_binary s' = edl_binary self"
     "loader s' = loader self" "scan_results s' = scan_results self"
    using read_memory_pyusb_fields[of w a self] p by simp_all
  show ?thesis
    using p f
    by (simp add: read_single_address_def same_config_def read_memory_fallback_state
        split: sum.splits option.splits)
qed


lemma scan_addresses_empty:
  assumes "end_addr \<le> start_addr" "1 \<le> step"
  shows "scan_addresses start_addr end_addr step = []"
proof -
  have "(end_addr - start_addr + step - 1) div step \<le> (step - 1) div step"
    using assms by (intro zdiv_mono1) simp_all
  also have "(step - 1) div step = 0"
    using assms by (simp add: div_pos_pos_trivial)
  finally show ?thesis by (simp add: scan_addresses_def)
qed

lemma scan_addresses_step:
  assumes "start_addr < end_addr" "1 \<le> step"
  shows "scan_addresses start_addr end_addr step = start_addr # scan_addresses (start_addr + step) end_addr step"
proof -
  let ?m = "(end_addr - (start_addr + step) + step - 1) div step"
  have e: "(end_addr - start_addr + step - 1) div step = ?m + 1"
  proof -
    have "end_addr - start_addr + step - 1 = (end_addr - (start_addr + step) + step - 1) + 1 * step" by simp
    then show ?thesis using assms(2) by (metis div_mult_self1 not_one_le_zero mult.commute add.commute)
  qed
  have m0: "0 \<le> ?m"
    using assms by (simp add: pos_imp_zdiv_nonneg_iff)
  have n: "nat ((end_addr - start_addr + step - 1) div step) = Suc (nat ?m)"
    using e m0 by simp
  have "map (\<lambda>k. start_addr + int k * step) [0 ..< Suc (nat ?m)]
        = start_addr # map (\<lambda>k. start_addr + step + int k * step) [0 ..< nat ?m]"
    by (simp add: upt_conv_Cons map_Suc_upt[symmetric] algebra_simps del: upt_Suc)
  then show ?thesis
    unfolding scan_addresses_def n by simp
qed


lemma dict_set_fresh: "k \<notin> fst ` set d \<Longrightarrow> dict_set k v d = d @ [(k, v)]"
  by (induction d) auto

lemma read_single_address_raises:
  "fst (read_single_address w a self) = Inl e \<Longrightarrow> e = KeyboardInterrupt"
  by (auto simp: read_single_address_result read_memory_pyusb_result read_memory_fallback_result
      split: if_splits option.splits sum.splits prod.splits)

lemma scan_body_spec:
  assumes io: "io_succeeds w"
    and cfg: "same_config (scanner st) self0"
    and sb: "scan_body w tot cur st = (r, st')"
  shows "attempted st' = attempted st @ [cur] \<and>
         reads_completed st' = reads_completed st + 1 \<and>
         same_config (scanner st') self0 \<and>
         scan_results (scanner st') =
           (case discovery w self0 cur of
              Some v \<Rightarrow> dict_set cur v (scan_results (scanner st))
            | None \<Rightarrow> scan_results (scanner st)) \<and>
         r = (case fst (read_single_address w cur self0) of
                Inl e \<Rightarrow> Some e
              | Inr x \<Rightarrow> (if (reads_completed st + 1) mod 256 = 0 \<and> tot = 0
                         then Some ZeroDivisionError else None))"
proof -
  have con: "\<And>p. console w p = None" and app: "\<And>a. log_append w a = None"
    using io by (simp_all add: io_succeeds_def)
  obtain rr s' where rd: "read_single_address w cur (scanner st) = (rr, s')"
    by (cases "read_single_address w cur (scanner st)") auto
  have res: "fst (read_single_address w cur self0) = rr"
    using read_single_address_cong[OF cfg, of w cur] rd by simp
  have flds: "same_config s' self0" "scan_results s' = scan_results (scanner st)"
    using read_single_address_fields[of w cur "scanner st"] rd cfg
    by (simp_all add: same_config_def)
  define st1 where "st1 = st\<lparr>reads_completed := reads_completed st + 1,
                              attempted := attempted st @ [cur], scanner := s'\<rparr>"
  define prog where "prog = (if (reads_completed st + 1) mod 256 = 0 \<and> tot = 0
                             then Some ZeroDivisionError else None)"
  have st1: "attempted st1 = attempted st @ [cur]" "reads_completed st1 = reads_completed st + 1"
    "scanner st1 = s'"
    by (simp_all add: st1_def)
  consider (exn) e where "rr = Inl e"
    | (none) "rr = Inr None"
    | (short) bs where "rr = Inr (Some bs)" "length bs < 4"
    | (zero) "rr = Inr (Some NULL_PATTERN)"
    | (found) bs where "rr = Inr (Some bs)" "4 \<le> length bs" "bs \<noteq> NULL_PATTERN"
  proof (cases rr)
    case (Inl e)
    then show ?thesis using exn by simp
  next
    case (Inr ob)
    show ?thesis
    proof (cases ob)
      case None
      with Inr show ?thesis using none by simp
    next
      case (Some a)
      show ?thesis
      proof (cases "length a < 4")
        case True
        with Inr Some show ?thesis using short by simp
      next
        case False
        with Inr Some show ?thesis
          using zero found by (cases "a = NULL_PATTERN") simp_all
      qed
    qed
  qed
  then show ?thesis
  proof cases
    case exn
    have "scan_body w tot cur st = (Some e, st1)"
      by (simp add: scan_body_def con app rd exn st1_def Let_def)
    with sb have "r = Some e" "st' = st1" by simp_all
    then show ?thesis
      using flds st1 by (simp add: discovery_def res exn)
  next
    case none
    have "scan_body w tot cur st = (prog, st1)"
      by (simp add: scan_body_def con app rd none st1_def prog_def py_truediv_def Let_def)
    with sb have "r = prog" "st' = st1" by simp_all
    then show ?thesis
      using flds st1 by (simp add: discovery_def res none prog_def)
  next
    case short
    have "scan_body w tot cur st = (prog, st1)"
      by (simp add: scan_body_def con app rd short st1_def prog_def py_truediv_def Let_def)
    with sb have "r = prog" "st' = st1" by simp_all
    then show ?thesis
      using flds st1 short(2) by (simp add: discovery_def res short(1) prog_def)
  next
    case zero
    have "scan_body w tot cur st = (prog, st1)"
      by (simp add: scan_body_def con app rd zero st1_def prog_def py_truediv_def Let_def)
    with sb have "r = prog" "st' = st1" by simp_all
    then show ?thesis
      using flds st1 by (simp add: discovery_def res zero prog_def)
  next
    case found
    define st3 where "st3 = st1\<lparr>scanner := s'\<lparr>scan_results :=
                              dict_set cur (hex_value bs) (scan_results s')\<rparr>,
                            non_zero_count := non_zero_count st + 1,
                            log_lines := log_lines st @
                              [''0x'' @ format_08x cur @ '': '' @ hex_value bs]\<rparr>"
    have st3: "attempted st3 = attempted st @ [cur]" "reads_completed st3 = reads_completed st + 1"
      "same_config (scanner st3) self0"
      "scan_results (scanner st3) = dict_set cur (hex_value bs) (scan_results (scanner st))"
      using flds by (simp_all add: st3_def st1_def same_config_def)
    have d: "discovery w self0 cur = Some (hex_value bs)"
      using found by (simp add: discovery_def res)
    have "scan_body w tot cur st = (prog, st3)"
      using found(2,3)
      by (simp add: scan_body_def con app rd found(1) st1_def st3_def prog_def py_truediv_def Let_def)
    with sb have "r = prog" "st' = st3" by simp_all
    then show ?thesis
      using st3 d by (simp add: res found(1) prog_def)
  qed
qed

lemma progress_total_nonzero:
  assumes "1 \<le> step" "0 \<le> rc" "(rc + 1) mod 256 = 0" "start_addr + rc * step < end_addr"
  shows "(end_addr - start_addr) div step \<noteq> (0::int)"
proof -
  have "1 \<le> rc" using assms(2,3) by presburger
  then have "1 * step \<le> rc * step" using assms(1) by (intro mult_right_mono) simp_all
  then have "step \<le> end_addr - start_addr" using assms(4) by simp
  then have "step div step \<le> (end_addr - start_addr) div step"
    using assms(1) by (intro zdiv_mono1) simp_all
  then show ?thesis using assms(1) by simp
qed

lemma discoveries_Cons:
  "discoveries w self0 (a # as) =
     (case discovery w self0 a of Some v \<Rightarrow> [(a, v)] | None \<Rightarrow> []) @ discoveries w self0 as"
  by (simp add: discoveries_def)

lemma discoveries_Nil: "discoveries w self0 [] = []"
  by (simp add: discoveries_def)

lemma discoveries_keys: "fst ` set (discoveries w self0 as) \<subseteq> set as"
  by (induction as) (auto simp: discoveries_Cons discoveries_Nil split: option.splits)

lemma scan_loop_spec:
  assumes io: "io_succeeds w"
    and step: "1 \<le> step"
    and tot: "tot = (end_addr - start_addr) div step"
  shows "same_config (scanner st) self0 \<Longrightarrow>
         \<forall>k \<in> fst ` set (scan_results (scanner st)). k < cur \<Longrightarrow>
         0 \<le> reads_completed st \<Longrightarrow>
         cur = start_addr + reads_completed st * step \<Longrightarrow>
         scan_loop w end_addr step tot cur st = (r, st') \<Longrightarrow>
         attempted st' = attempted st @
            take_through (\<lambda>a. interrupted_at w self0 a) (scan_addresses cur end_addr step) \<and>
         scan_results (scanner st') = scan_results (scanner st) @
            discoveries w self0
              (take_through (\<lambda>a. interrupted_at w self0 a) (scan_addresses cur end_addr step)) \<and>
         r = (case find (\<lambda>a. interrupted_at w self0 a) (scan_addresses cur end_addr step) of
                None \<Rightarrow> None
              | Some a \<Rightarrow> Some KeyboardInterrupt)"
proof (induction "nat (end_addr - cur)" arbitrary: cur st rule: less_induct)
  case less
  let ?P = "\<lambda>a. interrupted_at w self0 a"
  have es: "effective_step step = step" using step by (simp add: effective_step_def)
  show ?case
  proof (cases "cur < end_addr")
    case False
    then have "scan_addresses cur end_addr step = []"
      using step by (simp add: scan_addresses_empty)
    moreover have "scan_loop w end_addr step tot cur st = (None, st)"
      using False by (simp add: scan_loop.simps[of w end_addr step tot cur st])
    ultimately show ?thesis using less.prems(5) by (simp add: discoveries_Nil)
  next
    case True
    obtain rb stb where sb: "scan_body w tot cur st = (rb, stb)"
      by (cases "scan_body w tot cur st") auto
    note spec = scan_body_spec[OF io less.prems(1) sb]
    have grid: "scan_addresses cur end_addr step = cur # scan_addresses (cur + step) end_addr step"
      using True step by (rule scan_addresses_step)
    have nz: "\<not> ((reads_completed st + 1) mod 256 = 0 \<and> tot = 0)"
      using progress_total_nonzero[OF step less.prems(3)] less.prems(4) True tot by auto
    have rb: "rb = (if interrupted_at w self0 cur then Some KeyboardInterrupt else None)"
      using spec nz read_single_address_raises[of w cur self0]
      by (auto simp: interrupted_at_def split: sum.splits)
    have fresh: "cur \<notin> fst ` set (scan_results (scanner st))"
      using less.prems(2) by auto
    have res: "scan_results (scanner stb) = scan_results (scanner st) @ discoveries w self0 [cur]"
      using spec fresh by (simp add: discoveries_Cons discoveries_Nil dict_set_fresh split: option.splits)
    have att: "attempted stb = attempted st @ [cur]" using spec by simp
    show ?thesis
    proof (cases rb)
      case (Some e)
      have "scan_loop w end_addr step tot cur st = (Some e, stb)"
        using True sb Some by (simp add: scan_loop.simps[of w end_addr step tot cur st])
      with less.prems(5) have fin: "r = Some e" "st' = stb" by simp_all
      have pe: "interrupted_at w self0 cur" "e = KeyboardInterrupt"
        using rb Some by (simp_all split: if_splits)
      show ?thesis
        by (simp add: fin grid pe att res)
    next
      case None
      have rec: "scan_loop w end_addr step tot cur st = scan_loop w end_addr step tot (cur + step) stb"
        using True sb None es by (simp add: scan_loop.simps[of w end_addr step tot cur st])
      have m: "nat (end_addr - (cur + step)) < nat (end_addr - cur)"
        using True step by simp
      have keys: "\<forall>k \<in> fst ` set (scan_results (scanner stb)). k < cur + step"
        using less.prems(2) res step discoveries_keys[of w self0 "[cur]"] by fastforce
      have rc: "0 \<le> reads_completed stb" "cur + step = start_addr + reads_completed stb * step"
        using spec less.prems(3,4) by (simp_all add: algebra_simps)
      have run: "scan_loop w end_addr step tot (cur + step) stb = (r, st')"
        using rec less.prems(5) by simp
      have cfg: "same_config (scanner stb) self0" using spec by simp
      note ih = less.hyps[OF m cfg keys rc run]
      have np: "\<not> interrupted_at w self0 cur" using rb None by (simp split: if_splits)
      show ?thesis
        using ih by (simp add: grid np att res discoveries_def)
    qed
  qed
qed

lemma take_through_prefix: "\<exists>ys. xs = take_through p xs @ ys"
  by (induction xs) auto

lemma take_through_all: "\<forall>x \<in> set xs. \<not> p x \<Longrightarrow> take_through p xs = xs"
  by (induction xs) auto

lemma find_None_all: "(find p xs = None) = (\<forall>x \<in> set xs. \<not> p x)"
  by (induction xs) auto

lemma take_through_last: "find p xs = Some a \<Longrightarrow> take_through p xs \<noteq> [] \<and> last (take_through p xs) = a"
  by (induction xs) (auto split: if_splits)

lemma sorted_wrt_prefix: "sorted_wrt r (xs @ ys) \<Longrightarrow> sorted_wrt r xs"
  by (simp add: sorted_wrt_append)

lemma scan_addresses_above:
  "1 \<le> step \<Longrightarrow> \<forall>a \<in> set (scan_addresses s e step). s \<le> a"
  by (auto simp: scan_addresses_def)

lemma scan_addresses_sorted:
  assumes "1 \<le> step"
  shows "sorted_wrt (<) (scan_addresses s e step)"
proof (induction "nat (e - s)" arbitrary: s rule: less_induct)
  case less
  show ?case
  proof (cases "s < e")
    case False
    then show ?thesis using assms by (simp add: scan_addresses_empty)
  next
    case True
    have m: "nat (e - (s + step)) < nat (e - s)" using True assms by simp
    have "\<forall>a \<in> set (scan_addresses (s + step) e step). s < a"
      using scan_addresses_above[OF assms, of "s + step" e] assms by fastforce
    then show ?thesis
      using less[OF m] by (simp add: scan_addresses_step[OF True assms])
  qed
qed

lemma scan_addresses_set:
  assumes "1 \<le> step"
  shows "set (scan_addresses s e step) = {a. s \<le> a \<and> a < e \<and> step dvd (a - s)}"
proof (induction "nat (e - s)" arbitrary: s rule: less_induct)
  case less
  show ?case
  proof (cases "s < e")
    case False
    then show ?thesis using assms by (auto simp: scan_addresses_empty)
  next
    case True
    have m: "nat (e - (s + step)) < nat (e - s)" using True assms by simp
    have ih: "set (scan_addresses (s + step) e step) = {a. s + step \<le> a \<and> a < e \<and> step dvd (a - (s + step))}"
      by (rule less[OF m])
    have "{a. s \<le> a \<and> a < e \<and> step dvd (a - s)}
          = insert s {a. s + step \<le> a \<and> a < e \<and> step dvd (a - (s + step))}"
    proof (rule set_eqI)
      fix a
      have "a - (s + step) = a - s - step" by simp
      then have d: "step dvd (a - (s + step)) \<longleftrightarrow> step dvd (a - s)"
        by (simp only: dvd_diff_left_iff[OF dvd_refl])
      have "s \<le> a \<and> step dvd (a - s) \<and> a \<noteq> s \<longrightarrow> s + step \<le> a"
      proof (intro impI)
        assume h: "s \<le> a \<and> step dvd (a - s) \<and> a \<noteq> s"
        then have "0 < a - s" by simp
        with h have "step \<le> a - s" using zdvd_imp_le by blast
        then show "s + step \<le> a" by simp
      qed
      then show "a \<in> {a. s \<le> a \<and> a < e \<and> step dvd (a - s)}
            \<longleftrightarrow> a \<in> insert s {a. s + step \<le> a \<and> a < e \<and> step dvd (a - (s + step))}"
        using True assms d by auto
    qed
    then show ?thesis
      using ih by (simp add: scan_addresses_step[OF True assms])
  qed
qed

lemma effective_step_pos: "1 \<le> effective_step step"
  by (simp add: effective_step_def)

lemma print_all_io: "io_succeeds w \<Longrightarrow> print_all w ps = None"
  by (induction ps) (simp_all add: io_succeeds_def)

lemma float_limit_above_2_32: "(4294967296::int) < 2 ^ 1024 - 2 ^ 970"
proof -
  have a: "(2::int) ^ 971 \<le> 2 ^ 1024" by (rule power_increasing) simp_all
  have "(4294967296::int) = 2 ^ 32" by simp
  also have "(2::int) ^ 32 < 2 ^ 970" by (rule power_strict_increasing) simp_all
  also have "(2::int) ^ 970 = 2 ^ 971 - 2 ^ 970" by simp
  also have "\<dots> \<le> 2 ^ 1024 - 2 ^ 970" using a by simp
  finally show ?thesis .
qed

lemma small_range_no_overflow: "\<bar>n\<bar> \<le> 4294967296 \<Longrightarrow> \<not> int_to_float_overflows n"
  using float_limit_above_2_32 unfolding int_to_float_overflows_def by linarith

lemma huge_range_overflows: "int_to_float_overflows (2 ^ 1030 div 4)"
proof -
  have "(2::int) ^ 1030 = 2 ^ 1028 * 2 ^ 2" by (simp only: power_add[symmetric]) simp
  then have d: "(2::int) ^ 1030 div 4 = 2 ^ 1028" by simp
  have "(2::int) ^ 1024 \<le> 2 ^ 1028" by (rule power_increasing) simp_all
  moreover have "(0::int) < 2 ^ 970" by simp
  moreover have "(0::int) \<le> 2 ^ 1028" by simp
  ultimately have "(2::int) ^ 1024 - 2 ^ 970 \<le> \<bar>2 ^ 1028\<bar>" by linarith
  then show ?thesis unfolding int_to_float_overflows_def d .
qed

lemma scan_memory_spec:
  assumes io: "io_succeeds w"
    and run: "scan_memory w s e step self = (Inr (outcome, d), st)"
  shows "attempted st =
           take_through (interrupted_at w self) (scan_addresses s e (effective_step step)) \<and>
         d = discoveries w self (attempted st) \<and>
         outcome = (case find (interrupted_at w self) (scan_addresses s e (effective_step step)) of
                      None \<Rightarrow> Completed
                    | Some a \<Rightarrow> Interrupted)"
proof -
  let ?step = "effective_step step"
  let ?tot = "(e - s) div ?step"
  let ?st0 = "\<lparr>scanner = self\<lparr>scan_results := []\<rparr>, reads_completed = 0, non_zero_count = 0,
               log_lines = [], attempted = []\<rparr>"
  let ?P = "interrupted_at w self"
  have con: "\<And>p. console w p = None" using io by (simp add: io_succeeds_def)
  obtain r st1 where lp: "scan_loop w e ?step ?tot s ?st0 = (r, st1)"
    by (cases "scan_loop w e ?step ?tot s ?st0") auto
  have cfg: "same_config (scanner ?st0) self" by (simp add: same_config_def)
  have spec: "attempted st1 = attempted ?st0 @ take_through ?P (scan_addresses s e ?step) \<and>
         scan_results (scanner st1) = scan_results (scanner ?st0) @
            discoveries w self (take_through ?P (scan_addresses s e ?step)) \<and>
         r = (case find ?P (scan_addresses s e ?step) of None \<Rightarrow> None
              | Some a \<Rightarrow> Some KeyboardInterrupt)"
    by (rule scan_loop_spec[OF io effective_step_pos refl cfg _ _ _ lp]) simp_all
  have ban: "scan_banner w ?tot = None"
  proof (cases "scan_banner w ?tot")
    case None
    then show ?thesis .
  next
    case (Some ex)
    then have "fst (scan_memory w s e step self) = Inl ex"
      by (simp add: scan_memory_def Let_def)
    with run show ?thesis by simp
  qed
  define oc where "oc = (case r of None \<Rightarrow> Completed | Some x \<Rightarrow> Interrupted)"
  have rk: "r = None \<or> r = Some KeyboardInterrupt"
    using spec by (simp split: option.splits)
  have "scan_memory w s e step self = (Inr (oc, scan_results (scanner st1)), st1)"
    using rk
    by (auto simp: scan_memory_def scan_try_def Let_def ban lp oc_def con print_all_io[OF io])
  then have "(Inr (outcome, d) :: py_exception + scan_outcome \<times> (int \<times> string) list, st)
               = (Inr (oc, scan_results (scanner st1)), st1)"
    by (rule trans[OF run[symmetric]])
  then have st: "st = st1" and o: "outcome = oc" and dd: "d = scan_results (scanner st1)"
    by blast+
  have att: "attempted st1 = take_through ?P (scan_addresses s e ?step)"
    and dis: "scan_results (scanner st1) = discoveries w self (attempted st1)"
    and r: "r = (case find ?P (scan_addresses s e ?step) of None \<Rightarrow> None
              | Some a \<Rightarrow> Some KeyboardInterrupt)"
    using spec by simp_all
  have oc: "oc = (case find ?P (scan_addresses s e ?step) of None \<Rightarrow> Completed
                  | Some a \<Rightarrow> Interrupted)"
    unfolding oc_def r by (simp split: option.splits)
  show ?thesis
    unfolding st o dd using att dis oc by simp
qed

section \<open>Properties of the sweep: the claims\<close>

lemmas scan_eval =
  scan_memory_def scan_banner_def scan_try_def scan_loop.simps scan_body_def
  read_single_address_def read_memory_pyusb_def
  read_memory_fallback_def pyusb_outer_except_def effective_step_def Let_def truthy_def
  handle_error_def default_skip_def diag_log_error_def diag_log_response_def log_error_def
  log_response_def reset_error_count_def NULL_PATTERN_def py_truediv_def
  stub_world_def stub_scanner_def QFPROMExtractor_init_def USBErrorRecovery_init_def
  SLAResponseLogger_init_def small_range_no_overflow

text \<open>
  Claim C3, as the code has it. A call takes the default branch exactly when the code is
  \<open>0x04\<close> with the incremented count below the threshold, or \<open>0xff\<close> with the
  incremented count at 3 or more, or any other code. It then returns
  \<^verbatim>\<open>skip_address\<close> with next address \<open>address + 4\<close> and skip size 4: the
  constant 4, not the step of the sweep, which the method does not receive. The count is
  set to 0 exactly when its incremented value is 3 or more, and otherwise keeps the
  incremented value (1 or 2 when it was 0 or 1).
\<close>

theorem default_branch_skips_four_bytes:
  assumes "handle_error now address code s = (act, sl, s')"
  shows "((action act = ''skip_address'') =
           (code = 0x04 \<and> error_count s + 1 < error_threshold s \<or>
            code = 0xff \<and> 3 \<le> error_count s + 1 \<or>
            code \<noteq> 0x04 \<and> code \<noteq> 0xff)) \<and>
         (action act = ''skip_address'' \<longrightarrow>
            next_address act = address + 4 \<and> skip_size act = Some 4 \<and>
            error_count s' = (if 3 \<le> error_count s + 1 then 0 else error_count s + 1)) \<and>
         (action act = ''skip_address'' \<and> 0 \<le> error_count s \<and> error_count s + 1 < 3 \<longrightarrow>
            error_count s' = 1 \<or> error_count s' = 2)"
  using assms
  by (auto simp: handle_error_def default_skip_def Let_def split: if_splits)

theorem default_branch_skips_four_bytes_witness:
  "action (fst (handle_error ''t'' 0x700000 0x04 USBErrorRecovery_init)) = ''skip_address'' \<and>
   next_address (fst (handle_error ''t'' 0x700000 0x04 USBErrorRecovery_init)) = 0x700004 \<and>
   skip_size (fst (handle_error ''t'' 0x700000 0x04 USBErrorRecovery_init)) = Some 4 \<and>
   error_count (snd (snd (handle_error ''t'' 0x700000 0x04 USBErrorRecovery_init))) = 1"
  using default_branch_skips_four_bytes[of "''t''" "0x700000" "0x04" USBErrorRecovery_init
      "fst (handle_error ''t'' 0x700000 0x04 USBErrorRecovery_init)"
      "fst (snd (handle_error ''t'' 0x700000 0x04 USBErrorRecovery_init))"
      "snd (snd (handle_error ''t'' 0x700000 0x04 USBErrorRecovery_init))"]
  by (simp add: USBErrorRecovery_init_def)

text \<open>
  The claim as stated, with the step of the sweep in place of 4, fails: in a sweep with
  step 8 whose first read answers with a leading \<open>0x04\<close>, the action handed to the
  diagnostics names \<open>0x700004\<close> as next address and 4 as skip size, while the sweep
  itself goes on at \<open>0x700008\<close>.
\<close>

theorem scan_step_8_skip_action_advances_4:
  "attempted (snd (scan_memory
       (stub_world (\<lambda>a. if a = 0x700000 then Inr [0x04, 0, 0, 0] else Inr [0, 0, 0, 0]))
       0x700000 0x700010 8 stub_scanner)) = [0x700000, 0x700008] \<and>
   map_option (\<lambda>lg. map error_context (errors lg)) (sla_logger (scanner (snd (scan_memory
       (stub_world (\<lambda>a. if a = 0x700000 then Inr [0x04, 0, 0, 0] else Inr [0, 0, 0, 0]))
       0x700000 0x700010 8 stub_scanner))))
     = Some [ActionContext \<lparr>action = ''skip_address'', next_address = 0x700004, skip_size = Some 4,
                             delay_ms = None, reason = ''graceful_skip''\<rparr>] \<and>
   next_address (fst (handle_error ''t'' 0x700000 0x04 USBErrorRecovery_init)) \<noteq> 0x700000 + 8 \<and>
   skip_size (fst (handle_error ''t'' 0x700000 0x04 USBErrorRecovery_init)) \<noteq> Some 8"
  by (simp add: scan_eval)

lemma discoveries_entries:
  "(a, v) \<in> set (discoveries w self as) \<Longrightarrow>
   a \<in> set as \<and> (\<exists>bs. fst (read_single_address w a self) = Inr (Some bs) \<and>
                        4 \<le> length bs \<and> bs \<noteq> NULL_PATTERN \<and> v = hex_value bs)"
  by (induction as)
     (auto simp: discoveries_Cons discoveries_Nil discovery_def
           split: option.splits sum.splits if_splits)

text \<open>
  Claim C5, as the code has it by design. Take a sweep that returns and in which every
  print and every append to the log file succeeds. The addresses at which it attempts a
  read are the sequence \<open>start, start + step, ...\<close> below \<open>end\<close> (step below 1
  replaced by 4), in ascending order and each once, up to and including the first address
  whose read the user interrupts; when no read is interrupted they are the whole sequence
  and the sweep completes. The returned dictionary holds, in that order, an entry for
  exactly those attempted addresses whose read returned at least four bytes other than the
  all-zero pattern, and the entry is the rendering of these bytes. What a sweep does
  when a print or an append fails is left open here.
\<close>

theorem scan_visits_addresses_in_order:
  assumes "io_succeeds w"
    and "scan_memory w s e step self = (Inr (outcome, d), st)"
  shows "attempted st =
           take_through (interrupted_at w self) (scan_addresses s e (effective_step step)) \<and>
         (\<exists>rest. scan_addresses s e (effective_step step) = attempted st @ rest) \<and>
         ((\<forall>a \<in> set (scan_addresses s e (effective_step step)). \<not> interrupted_at w self a) \<longrightarrow>
            attempted st = scan_addresses s e (effective_step step) \<and> outcome = Completed) \<and>
         sorted_wrt (<) (attempted st) \<and>
         set (scan_addresses s e (effective_step step)) =
           {a. s \<le> a \<and> a < e \<and> effective_step step dvd (a - s)} \<and>
         d = discoveries w self (attempted st) \<and>
         (\<forall>(a, v) \<in> set d.
            a \<in> set (attempted st) \<and>
            (\<exists>bs. fst (read_single_address w a self) = Inr (Some bs) \<and>
                  4 \<le> length bs \<and> bs \<noteq> NULL_PATTERN \<and> v = hex_value bs))"
proof -
  let ?grid = "scan_addresses s e (effective_step step)"
  let ?P = "interrupted_at w self"
  note spec = scan_memory_spec[OF assms]
  have att: "attempted st = take_through ?P ?grid" using spec by simp
  have d: "d = discoveries w self (attempted st)" using spec by simp
  have oc: "outcome = (case find ?P ?grid of None \<Rightarrow> Completed | Some a \<Rightarrow> Interrupted)"
    using spec by simp
  obtain rest where rest: "?grid = attempted st @ rest"
    using take_through_prefix[of ?grid ?P] att by auto
  have all: "(\<forall>a \<in> set ?grid. \<not> ?P a) \<longrightarrow> attempted st = ?grid \<and> outcome = Completed"
  proof
    assume q: "\<forall>a \<in> set ?grid. \<not> ?P a"
    then have "find ?P ?grid = None" by (simp add: find_None_all)
    then have "outcome = Completed" using oc by simp
    moreover have "attempted st = ?grid" using take_through_all[OF q] att by simp
    ultimately show "attempted st = ?grid \<and> outcome = Completed" by simp
  qed
  have srt: "sorted_wrt (<) (attempted st)"
    using scan_addresses_sorted[OF effective_step_pos, of s e step] rest
    by (metis sorted_wrt_prefix)
  have st: "set ?grid = {a. s \<le> a \<and> a < e \<and> effective_step step dvd (a - s)}"
    by (rule scan_addresses_set[OF effective_step_pos])
  have ent: "\<forall>(a, v) \<in> set d.
            a \<in> set (attempted st) \<and>
            (\<exists>bs. fst (read_single_address w a self) = Inr (Some bs) \<and>
                  4 \<le> length bs \<and> bs \<noteq> NULL_PATTERN \<and> v = hex_value bs)"
    unfolding d using discoveries_entries[of _ _ w self "attempted st"] by blast
  from att rest all srt st d ent show ?thesis by blast
qed

theorem scan_visits_addresses_in_order_witness:
  "fst (scan_memory
     (stub_world (\<lambda>a. if a = 0x700004 then Inr [0x01, 0x02, 0x03, 0x04]
                       else if a = 0x70000c then Inl (OtherException ''stall'')
                       else Inr [0, 0, 0, 0]))
     0x700000 0x700010 4 stub_scanner) = Inr (Completed, [(0x700004, ''01 02 03 04'')]) \<and>
   attempted (snd (scan_memory
     (stub_world (\<lambda>a. if a = 0x700004 then Inr [0x01, 0x02, 0x03, 0x04]
                       else if a = 0x70000c then Inl (OtherException ''stall'')
                       else Inr [0, 0, 0, 0]))
     0x700000 0x700010 4 stub_scanner)) = [0x700000, 0x700004, 0x700008, 0x70000c] \<and>
   sorted_wrt (<) (attempted (snd (scan_memory
     (stub_world (\<lambda>a. if a = 0x700004 then Inr [0x01, 0x02, 0x03, 0x04]
                       else if a = 0x70000c then Inl (OtherException ''stall'')
                       else Inr [0, 0, 0, 0]))
     0x700000 0x700010 4 stub_scanner)))"
proof -
  let ?w = "stub_world (\<lambda>a. if a = 0x700004 then Inr [0x01, 0x02, 0x03, 0x04]
                       else if a = 0x70000c then Inl (OtherException ''stall'')
                       else Inr [0, 0, 0, 0])"
  let ?run = "scan_memory ?w 0x700000 0x700010 4 stub_scanner"
  have f: "fst ?run = Inr (Completed, [(0x700004, ''01 02 03 04'')])"
    by (simp add: scan_eval hex_value_def format_02x_def hex_digit_def scan_loop.simps)
  have a: "attempted (snd ?run) = [0x700000, 0x700004, 0x700008, 0x70000c]"
    by (simp add: scan_eval scan_loop.simps)
  have r: "?run = (Inr (Completed, [(0x700004, ''01 02 03 04'')]), snd ?run)"
    by (rule prod_eqI) (simp_all add: f)
  have io: "io_succeeds ?w" by (simp add: io_succeeds_def stub_world_def)
  from scan_visits_addresses_in_order[OF io r]
  have s: "sorted_wrt (<) (attempted (snd ?run))" by blast
  from f a s show ?thesis by (intro conjI)
qed

text \<open>
  The claim as stated, that every sweep visits the whole sequence, fails when the user
  interrupts it: a \<open>KeyboardInterrupt\<close> during the second read of a four-address
  range leaves the last two addresses unvisited.
\<close>

theorem scan_interrupted_stops_early:
  "attempted (snd (scan_memory
       (stub_world (\<lambda>a. if a = 0x700004 then Inl KeyboardInterrupt else Inr [0, 0, 0, 0]))
       0x700000 0x700010 4 stub_scanner)) = [0x700000, 0x700004] \<and>
   attempted (snd (scan_memory
       (stub_world (\<lambda>a. if a = 0x700004 then Inl KeyboardInterrupt else Inr [0, 0, 0, 0]))
       0x700000 0x700010 4 stub_scanner)) \<noteq> scan_addresses 0x700000 0x700010 4"
  by (simp add: scan_eval scan_addresses_def upt_conv_Cons)



text \<open>
  Claim C9. \<^verbatim>\<open>scan_memory\<close> is claimed never to let an exception reach its
  caller. It does, from the statements that its \<^verbatim>\<open>try\<close> does not cover. For the
  range from 0 to \<open>2 ^ 1030\<close> with step 4, whatever the device and the object, the
  estimate \<^verbatim>\<open>total_reads * 0.01\<close> of the banner raises \<^verbatim>\<open>OverflowError\<close>
  before any read is attempted. On a console that refuses the first banner line, the
  exception of that print leaves the method. And when the user interrupts a sweep and the
  print of the \<^verbatim>\<open>except KeyboardInterrupt\<close> clause fails, that failure leaves the
  method in place of the partial results.
\<close>

theorem scan_memory_propagates_exceptions:
  "fst (scan_memory w 0 (2 ^ 1030) 4 self) = Inl OverflowError \<and>
   attempted (snd (scan_memory w 0 (2 ^ 1030) 4 self)) = [] \<and>
   fst (scan_memory
         ((stub_world (\<lambda>a. Inr [0, 0, 0, 0]))
            \<lparr>console := (\<lambda>p. if p = BannerRange
                               then Some (OtherException ''UnicodeEncodeError'') else None)\<rparr>)
         0x700000 0x700010 4 stub_scanner)
     = Inl (OtherException ''UnicodeEncodeError'') \<and>
   fst (scan_memory
         ((stub_world (\<lambda>a. if a = 0x700004 then Inl KeyboardInterrupt else Inr [0, 0, 0, 0]))
            \<lparr>console := (\<lambda>p. if p = InterruptedLine
                               then Some (OtherException ''BrokenPipeError'') else None)\<rparr>)
         0x700000 0x700010 4 stub_scanner)
     = Inl (OtherException ''BrokenPipeError'')"
proof (intro conjI)
  have b: "scan_banner w ((2 ^ 1030 - 0) div effective_step 4) = Some OverflowError"
    using huge_range_overflows by (simp add: scan_banner_def effective_step_def)
  show "fst (scan_memory w 0 (2 ^ 1030) 4 self) = Inl OverflowError"
    unfolding scan_memory_def Let_def b by simp
  show "attempted (snd (scan_memory w 0 (2 ^ 1030) 4 self)) = []"
    unfolding scan_memory_def Let_def b by simp
  show "fst (scan_memory
         ((stub_world (\<lambda>a. Inr [0, 0, 0, 0]))
            \<lparr>console := (\<lambda>p. if p = BannerRange
                               then Some (OtherException ''UnicodeEncodeError'') else None)\<rparr>)
         0x700000 0x700010 4 stub_scanner)
     = Inl (OtherException ''UnicodeEncodeError'')"
    by (simp add: scan_memory_def scan_banner_def effective_step_def Let_def stub_world_def
          small_range_no_overflow)
  show "fst (scan_memory
         ((stub_world (\<lambda>a. if a = 0x700004 then Inl KeyboardInterrupt else Inr [0, 0, 0, 0]))
            \<lparr>console := (\<lambda>p. if p = InterruptedLine
                               then Some (OtherException ''BrokenPipeError'') else None)\<rparr>)
         0x700000 0x700010 4 stub_scanner)
     = Inl (OtherException ''BrokenPipeError'')"
    by (simp add: scan_eval)
qed

end
